theory Spec2Isabelle
  imports Main "HOL-Library.Sublist" "HOL-Library.AList"
begin

section \<open>Python strings\<close>

text \<open>
  A Python \<open>str\<close> is a sequence of code points. The model reads a \<^typ>\<open>char\<close> as one
  code point in the range U+0000 .. U+00FF, so a \<^typ>\<open>string\<close> is a Python string over
  that range; inputs with code points above U+00FF are outside the model. The functions
  below are the built-in string methods that \<open>parsing.py\<close> and \<open>app.py\<close> call, with
  the behaviour CPython has on this range.
\<close>

definition whitespace :: "char list" where
  "whitespace =
     [CHR 0x09, CHR 0x0A, CHR 0x0B, CHR 0x0C, CHR 0x0D,
      CHR 0x1C, CHR 0x1D, CHR 0x1E, CHR 0x1F, CHR 0x20, CHR 0x85, CHR 0xA0]"

definition is_space :: "char \<Rightarrow> bool" where
  \<comment> \<open>\<open>c.isspace()\<close>: the characters \<open>strip()\<close> and \<open>split()\<close> treat as whitespace\<close>
  "is_space c = (c \<in> set whitespace)"

definition lower_char :: "char \<Rightarrow> char" where
  \<comment> \<open>\<open>c.lower()\<close>: A-Z, and the upper-case letters U+00C0 .. U+00DE without U+00D7\<close>
  "lower_char c =
     (let n = (of_char c :: nat) in
      if 65 \<le> n \<and> n \<le> 90 then char_of (n + 32)
      else if 192 \<le> n \<and> n \<le> 222 \<and> n \<noteq> 215 then char_of (n + 32)
      else c)"

definition lower :: "string \<Rightarrow> string" where
  \<comment> \<open>\<open>s.lower()\<close>\<close>
  "lower s = map lower_char s"

definition strip :: "string \<Rightarrow> string" where
  \<comment> \<open>\<open>s.strip()\<close>: whitespace removed at both ends\<close>
  "strip s = rev (dropWhile is_space (rev (dropWhile is_space s)))"

fun index_of :: "char \<Rightarrow> string \<Rightarrow> nat option" where
  "index_of c [] = None"
| "index_of c (x # xs) = (if x = c then Some 0 else map_option Suc (index_of c xs))"

definition py_find :: "string \<Rightarrow> char \<Rightarrow> nat \<Rightarrow> nat option" where
  \<comment> \<open>\<open>s.find(c, start)\<close> for a one-character needle; \<open>None\<close> is Python's \<open>-1\<close>\<close>
  "py_find s c start = map_option (\<lambda>i. start + i) (index_of c (drop start s))"

definition slice :: "string \<Rightarrow> nat \<Rightarrow> nat \<Rightarrow> string" where
  \<comment> \<open>\<open>s[i:j]\<close> for non-negative \<open>i\<close> and \<open>j\<close> (both are clamped to \<open>len(s)\<close>)\<close>
  "slice s i j = drop i (take j s)"

definition startswith :: "string \<Rightarrow> string \<Rightarrow> bool" where
  \<comment> \<open>\<open>s.startswith(p)\<close>\<close>
  "startswith s p = (take (length p) s = p)"

fun words_from :: "string \<Rightarrow> string \<Rightarrow> string list" where
  "words_from cur [] = (if cur = [] then [] else [cur])"
| "words_from cur (c # cs) =
     (if is_space c then (if cur = [] then words_from [] cs else cur # words_from [] cs)
      else words_from (cur @ [c]) cs)"

definition py_split :: "string \<Rightarrow> string list" where
  \<comment> \<open>\<open>s.split()\<close>: the maximal runs of non-whitespace characters, in order\<close>
  "py_split s = words_from [] s"

fun fragments_from :: "char \<Rightarrow> string \<Rightarrow> string \<Rightarrow> string list" where
  "fragments_from d cur [] = [cur]"
| "fragments_from d cur (c # cs) =
     (if c = d then cur # fragments_from d [] cs else fragments_from d (cur @ [c]) cs)"

definition py_split_on :: "char \<Rightarrow> string \<Rightarrow> string list" where
  \<comment> \<open>\<open>s.split(d)\<close> for a one-character delimiter: \<open>n + 1\<close> fragments for \<open>n\<close> delimiters\<close>
  "py_split_on d s = fragments_from d [] s"

fun py_join :: "string \<Rightarrow> string list \<Rightarrow> string" where
  \<comment> \<open>\<open>sep.join(xs)\<close>\<close>
  "py_join sep [] = []"
| "py_join sep [x] = x"
| "py_join sep (x # y # ys) = x @ sep @ py_join sep (y # ys)"

section \<open>The query parser (\<open>parsing.py\<close>)\<close>

record parsed_query =
  brand :: string
  model :: string
  raw_options :: string

text \<open>
  \<open>parse_query\<close> writes its list of connecting words three times, as a list literal:
  in the branch without a slash, in the branch with a slash, and in the test of the last
  word before the slash. Each literal is kept as the source has it (with \<open>like\<close> twice).
\<close>

definition connecting_words_no_slash :: "string list" where
  "connecting_words_no_slash =
     [''with'', ''options'', ''option'', ''like'', ''such'', ''as'', ''enter'', ''a'',
      ''query'', ''like'']"

definition connecting_words_slash :: "string list" where
  "connecting_words_slash =
     [''with'', ''options'', ''option'', ''like'', ''such'', ''as'', ''enter'', ''a'',
      ''query'', ''like'']"

definition connecting_words_last_word :: "string list" where
  "connecting_words_last_word =
     [''with'', ''options'', ''option'', ''like'', ''such'', ''as'', ''enter'', ''a'',
      ''query'', ''like'']"

definition first_word :: "string list \<Rightarrow> string" where
  \<comment> \<open>\<open>filtered_words[0] if filtered_words else ""\<close>\<close>
  "first_word ws = (case ws of [] \<Rightarrow> [] | w # _ \<Rightarrow> w)"

definition second_word :: "string list \<Rightarrow> string" where
  \<comment> \<open>\<open>filtered_words[1] if len(filtered_words) > 1 else ""\<close>\<close>
  "second_word ws = (case ws of _ # w # _ \<Rightarrow> w | _ \<Rightarrow> [])"

text \<open>
  The \<open>while\<close> loop of \<open>parse_query\<close> that looks for the end of the options. Its state is
  \<open>current_pos\<close>; \<open>options_end_index\<close> is assigned once, right before the \<open>break\<close>,
  and keeps its initial value when the loop condition fails. The function returns the
  value of \<open>options_end_index\<close> after the loop.
\<close>

function options_end :: "string \<Rightarrow> nat \<Rightarrow> nat \<Rightarrow> nat" where
  "options_end text options_end_index current_pos =
     (if current_pos < length text then
        (case py_find text CHR ''/'' (current_pos + 1) of
           None \<Rightarrow>
             (case py_find text CHR '' '' current_pos of
                None \<Rightarrow> length text
              | Some next_space \<Rightarrow>
                  (let last_part = strip (slice text current_pos next_space) in
                   if last_part \<noteq> [] \<and> \<not> startswith last_part ''/''
                   then next_space
                   else current_pos + 1))
         | Some next_slash \<Rightarrow> options_end text options_end_index next_slash)
      else options_end_index)"
  by pat_completeness auto
termination
proof (relation "measure (\<lambda>(t, e, pos). length t - pos)")
  show "wf (measure (\<lambda>(t, e, pos). length t - pos))" by simp
next
  fix t :: string and e pos next_slash :: nat
  assume pos: "pos < length t"
    and found: "py_find t CHR ''/'' (pos + 1) = Some next_slash"
  have idx: "index_of c xs = Some k \<Longrightarrow> k < length xs" for c xs k
    by (induction xs arbitrary: k) (auto split: if_splits)
  from found obtain k where k: "index_of CHR ''/'' (drop (pos + 1) t) = Some k"
    and next_slash: "next_slash = pos + 1 + k"
    by (auto simp: py_find_def)
  from idx [OF k] next_slash have "pos < next_slash" and "next_slash < length t"
    by simp_all
  then show "((t, e, next_slash), (t, e, pos)) \<in> measure (\<lambda>(t, e, pos). length t - pos)"
    by simp
qed

declare options_end.simps [simp del]

definition last_word_before_slash :: "string list \<Rightarrow> string" where
  \<comment> \<open>the last word before the slash when it is no connecting word; \<open>parse_query\<close>
      computes it and does not use it\<close>
  "last_word_before_slash brand_model_words =
     (if brand_model_words \<noteq> [] \<and>
         lower (last brand_model_words) \<notin> set connecting_words_last_word
      then last brand_model_words else [])"

definition parse_query :: "string \<Rightarrow> parsed_query" where
  "parse_query text0 =
     (let text = strip text0 in
      case py_find text CHR ''/'' 0 of
        None \<Rightarrow>
          (let words = py_split text;
               filtered_words =
                 filter (\<lambda>word. lower word \<notin> set connecting_words_no_slash) words
           in \<lparr>brand = first_word filtered_words, model = second_word filtered_words,
               raw_options = []\<rparr>)
      | Some slash_index \<Rightarrow>
          (let options_end_index = options_end text slash_index slash_index;
               brand_model_part = strip (take slash_index text);
               brand_model_words = py_split brand_model_part;
               filtered_words =
                 filter (\<lambda>word. lower word \<notin> set connecting_words_slash) brand_model_words;
               options_part = strip (slice text slash_index options_end_index)
           in \<lparr>brand = first_word filtered_words, model = second_word filtered_words,
               raw_options = options_part\<rparr>))"

section \<open>The option splitter (\<open>parsing.py\<close>)\<close>

text \<open>
  The \<open>for\<close> loop of \<open>split_options_deterministic\<close>: \<open>opts\<close> is the list built so
  far, the second argument the fragments still to visit.
\<close>

fun collect_options :: "string list \<Rightarrow> string list \<Rightarrow> string list" where
  "collect_options opts [] = opts"
| "collect_options opts (opt # rest) =
     (let opt' = strip opt in
      if opt' \<noteq> [] then collect_options (opts @ [opt']) rest
      else collect_options opts rest)"

definition split_options_deterministic :: "string option \<Rightarrow> string list" where
  \<comment> \<open>\<open>None\<close> is Python's \<open>None\<close>, which \<open>not raw_options\<close> accepts like the empty string\<close>
  "split_options_deterministic raw =
     (case raw of
        None \<Rightarrow> []
      | Some s \<Rightarrow> if s = [] then [] else collect_options [] (py_split_on CHR ''/'' s))"

section \<open>The collaborator's reply (\<open>prompting.py\<close>)\<close>

text \<open>
  What \<open>json.loads\<close> returns. The value of a number plays no role in the code.
  An object is its list of key-value pairs in insertion order, read with \<^const>\<open>map_of\<close>
  and written with \<^const>\<open>AList.update\<close>, which keeps the position of a key that is
  already there and appends a new one, as a Python \<open>dict\<close> does.
\<close>

datatype json =
    JNull
  | JBool bool
  | JNum int
  | JStr string
  | JArr "json list"
  | JObj "(string \<times> json) list"

datatype py_error = ApiError | TypeError | KeyError

text \<open>
  One call of \<open>client.chat.completions.create\<close> followed by
  \<open>completion.choices[0].message.content\<close>: either an exception (the request fails, or
  there is no choice), or the content, which may be \<open>None\<close>.
\<close>

datatype completion = CallRaises | Content "string option"

fun contains_str :: "string \<Rightarrow> string \<Rightarrow> bool" where
  \<comment> \<open>\<open>needle in haystack\<close> for two strings\<close>
  "contains_str [] needle = (needle = [])"
| "contains_str (c # cs) needle = (startswith (c # cs) needle \<or> contains_str cs needle)"

fun py_in :: "string \<Rightarrow> json \<Rightarrow> py_error + bool" where
  \<comment> \<open>\<open>k in data\<close>: a key of a dict, an element of a list, a substring of a string;
      a TypeError on a number, a boolean and \<open>None\<close>\<close>
  "py_in k (JObj kvs) = Inr (k \<in> set (map fst kvs))"
| "py_in k (JArr xs) = Inr (JStr k \<in> set xs)"
| "py_in k (JStr s) = Inr (contains_str s k)"
| "py_in k (JNum n) = Inl TypeError"
| "py_in k (JBool b) = Inl TypeError"
| "py_in k JNull = Inl TypeError"

definition normalized_record :: "string \<Rightarrow> string \<Rightarrow> string list \<Rightarrow> json" where
  \<comment> \<open>the dict literal \<open>{"normalized": {"brand": b, "model": m, "options": opts},
      "results": []}\<close>, which the source writes out four times\<close>
  "normalized_record b m opts =
     JObj [(''normalized'',
            JObj [(''brand'', JStr b), (''model'', JStr m), (''options'', JArr (map JStr opts))]),
           (''results'', JArr [])]"

text \<open>
  \<open>normalize_options_via_llm\<close>. The collaborator is a function from the original text to
  the outcome of the one call made with it (system prompt, user prompt built around the
  text, model name and temperature are fixed by the caller); \<open>loads\<close> is \<open>json.loads\<close>,
  with \<open>None\<close> for a \<open>JSONDecodeError\<close>. An exception of the call is raised before the
  \<open>try\<close> and leaves the function; inside the \<open>try\<close> every exception gives the fallback.
\<close>

definition content_or_empty_object :: "string option \<Rightarrow> string" where
  \<comment> \<open>\<open>completion.choices[0].message.content or "{}"\<close>\<close>
  "content_or_empty_object c =
     (case c of None \<Rightarrow> ''{}'' | Some s \<Rightarrow> if s = [] then ''{}'' else s)"

definition normalize_options_via_llm ::
  "(string \<Rightarrow> json option) \<Rightarrow> (string \<Rightarrow> completion) \<Rightarrow> string \<Rightarrow> py_error + json" where
  "normalize_options_via_llm loads client original_text =
     (case client original_text of
        CallRaises \<Rightarrow> Inl ApiError
      | Content c \<Rightarrow>
          (let content = content_or_empty_object c in
           case loads content of
             None \<Rightarrow> Inr (normalized_record [] [] [])
           | Some data \<Rightarrow>
               (case py_in ''normalized'' data of
                  Inl e \<Rightarrow> Inr (normalized_record [] [] [])
                | Inr present \<Rightarrow>
                    if \<not> present then Inr (normalized_record [] [] [])
                    else Inr data)))"

text \<open>
  The \<open>schema\<close> that \<open>normalize_options_via_llm\<close> defines "for AI response validation":
  an object with exactly the keys \<open>normalized\<close> and \<open>results\<close>; \<open>normalized\<close> an object
  with exactly the keys \<open>brand\<close>, \<open>model\<close> (strings) and \<open>options\<close> (an array of
  strings); \<open>results\<close> an array of objects.
\<close>

definition is_str :: "json \<Rightarrow> bool" where
  "is_str j = (case j of JStr s \<Rightarrow> True | _ \<Rightarrow> False)"

definition is_obj :: "json \<Rightarrow> bool" where
  "is_obj j = (case j of JObj kvs \<Rightarrow> True | _ \<Rightarrow> False)"

definition conforms_normalized :: "json \<Rightarrow> bool" where
  "conforms_normalized n =
     (case n of
        JObj kvs \<Rightarrow>
          set (map fst kvs) = {''brand'', ''model'', ''options''}
          \<and> (case map_of kvs ''brand'' of Some (JStr b) \<Rightarrow> True | _ \<Rightarrow> False)
          \<and> (case map_of kvs ''model'' of Some (JStr m) \<Rightarrow> True | _ \<Rightarrow> False)
          \<and> (case map_of kvs ''options'' of Some (JArr xs) \<Rightarrow> list_all is_str xs | _ \<Rightarrow> False)
      | _ \<Rightarrow> False)"

definition conforms_schema :: "json \<Rightarrow> bool" where
  "conforms_schema j =
     (case j of
        JObj kvs \<Rightarrow>
          set (map fst kvs) = {''normalized'', ''results''}
          \<and> (case map_of kvs ''normalized'' of Some n \<Rightarrow> conforms_normalized n | None \<Rightarrow> False)
          \<and> (case map_of kvs ''results'' of Some (JArr xs) \<Rightarrow> list_all is_obj xs | _ \<Rightarrow> False)
      | _ \<Rightarrow> False)"

section \<open>Normalisation (\<open>main\<close> in \<open>app.py\<close>)\<close>

fun py_getitem :: "json \<Rightarrow> string \<Rightarrow> py_error + json" where
  \<comment> \<open>\<open>obj[k]\<close> with a string \<open>k\<close>: only a dict can be read so\<close>
  "py_getitem (JObj kvs) k = (case map_of kvs k of None \<Rightarrow> Inl KeyError | Some v \<Rightarrow> Inr v)"
| "py_getitem (JArr xs) k = Inl TypeError"
| "py_getitem (JStr s) k = Inl TypeError"
| "py_getitem (JNum n) k = Inl TypeError"
| "py_getitem (JBool b) k = Inl TypeError"
| "py_getitem JNull k = Inl TypeError"

fun py_setitem :: "json \<Rightarrow> string \<Rightarrow> json \<Rightarrow> py_error + json" where
  \<comment> \<open>\<open>obj[k] = v\<close> with a string \<open>k\<close>: only a dict can be written so\<close>
  "py_setitem (JObj kvs) k v = Inr (JObj (AList.update k v kvs))"
| "py_setitem (JArr xs) k v = Inl TypeError"
| "py_setitem (JStr s) k v = Inl TypeError"
| "py_setitem (JNum n) k v = Inl TypeError"
| "py_setitem (JBool b) k v = Inl TypeError"
| "py_setitem JNull k v = Inl TypeError"

definition set_normalized_field :: "json \<Rightarrow> string \<Rightarrow> string \<Rightarrow> py_error + json" where
  \<comment> \<open>\<open>payload["normalized"][k] = v\<close>; the dict that is written is the one \<open>payload\<close>
      holds, so the payload is returned with it\<close>
  "set_normalized_field payload k v =
     (case py_getitem payload ''normalized'' of
        Inl e \<Rightarrow> Inl e
      | Inr n \<Rightarrow>
          (case py_setitem n k (JStr v) of
             Inl e \<Rightarrow> Inl e
           | Inr n' \<Rightarrow> py_setitem payload ''normalized'' n'))"

definition filter_raw_options :: "string \<Rightarrow> string \<Rightarrow> string \<Rightarrow> string" where
  \<comment> \<open>\<open>raw_options\<close> of \<open>main\<close>, from the options column of the selected line\<close>
  "filter_raw_options brand_parsed model_parsed options_str =
     (if options_str \<noteq> [] then
        (let raw_opts_list =
               map strip (filter (\<lambda>opt. strip opt \<noteq> []) (py_split_on CHR ''/'' options_str));
             filtered_options =
               filter (\<lambda>opt. lower opt \<notin> set [lower brand_parsed, lower model_parsed]
                            \<and> length opt > 0) raw_opts_list
         in py_join ''/'' filtered_options)
      else [])"

definition llm_input :: "string \<Rightarrow> string \<Rightarrow> string \<Rightarrow> string" where
  "llm_input brand_parsed model_parsed raw_opts =
     (if raw_opts \<noteq> [] then brand_parsed @ '' '' @ model_parsed @ '' '' @ raw_opts
      else brand_parsed @ '' '' @ model_parsed)"

text \<open>
  The normalisation block of \<open>main\<close>, from the options filter to the end of the
  \<open>try\<close>/\<open>except\<close>. Its inputs are \<open>brand_parsed\<close> and \<open>model_parsed\<close> (the hints), the
  options column, and the client that \<open>get_openai_client\<close> returned (\<open>None\<close> when there is
  none). \<open>except Exception\<close> catches every error of the \<open>try\<close> body.
\<close>

definition main_normalize ::
  "(string \<Rightarrow> json option) \<Rightarrow> (string \<Rightarrow> completion) option \<Rightarrow> string \<Rightarrow> string \<Rightarrow> string \<Rightarrow> json" where
  "main_normalize loads client brand_parsed model_parsed options_str =
     (let raw_opts = filter_raw_options brand_parsed model_parsed options_str;
          attempt =
            (case (case client of
                     Some c \<Rightarrow>
                       normalize_options_via_llm loads c
                         (llm_input brand_parsed model_parsed raw_opts)
                   | None \<Rightarrow>
                       Inr (normalized_record brand_parsed model_parsed
                              (split_options_deterministic (Some raw_opts)))) of
               Inl e \<Rightarrow> Inl e
             | Inr payload \<Rightarrow>
                 (case set_normalized_field payload ''brand'' brand_parsed of
                    Inl e \<Rightarrow> Inl e
                  | Inr payload' \<Rightarrow> set_normalized_field payload' ''model'' model_parsed))
      in case attempt of
           Inr payload \<Rightarrow> payload
         | Inl e \<Rightarrow> normalized_record brand_parsed model_parsed [])"

definition normalized_field :: "json \<Rightarrow> string \<Rightarrow> json option" where
  \<comment> \<open>\<open>record["normalized"][k]\<close> as the caller reads it; \<open>None\<close> when the read fails\<close>
  "normalized_field payload k =
     (case py_getitem payload ''normalized'' of
        Inl e \<Rightarrow> None
      | Inr n \<Rightarrow> (case py_getitem n k of Inl e \<Rightarrow> None | Inr v \<Rightarrow> Some v))"

section \<open>Facts about the string functions\<close>

lemma py_find_at:
  assumes "py_find s c start = Some i"
  shows "start \<le> i" and "i < length s" and "s ! i = c"
proof -
  have len: "index_of c xs = Some k \<Longrightarrow> k < length xs" for xs k
    by (induction xs arbitrary: k) (auto split: if_splits)
  have nth: "index_of c xs = Some k \<Longrightarrow> xs ! k = c" for xs k
    by (induction xs arbitrary: k) (auto split: if_splits)
  from assms obtain k where k: "index_of c (drop start s) = Some k" and i: "i = start + k"
    by (auto simp: py_find_def)
  from i show "start \<le> i" by simp
  from len [OF k] i show "i < length s" by simp
  from len [OF k] nth [OF k] i show "s ! i = c" by simp
qed

lemma strip_Nil: "strip [] = []"
  by (simp add: strip_def)

lemma lower_Nil: "lower [] = []"
  by (simp add: lower_def)

lemma set_strip: "set (strip s) \<subseteq> set s"
proof -
  have "set (strip s) = set (dropWhile is_space (rev (dropWhile is_space s)))"
    by (simp add: strip_def)
  also have "\<dots> \<subseteq> set (rev (dropWhile is_space s))"
    by (meson set_dropWhileD subsetI)
  also have "\<dots> \<subseteq> set s"
    by (simp add: subsetI set_dropWhileD)
  finally show ?thesis .
qed

lemma strip_Cons:
  assumes "\<not> is_space c"
  shows "\<exists>ys. strip (c # xs) = c # ys"
proof -
  have "\<exists>zs. dropWhile is_space (ws @ [c]) = zs @ [c]" for ws
    using assms by (induction ws) auto
  then obtain zs where "dropWhile is_space (rev xs @ [c]) = zs @ [c]" by blast
  with assms show ?thesis by (simp add: strip_def)
qed

lemma strip_ends:
  assumes "strip s \<noteq> []"
  shows "\<not> is_space (hd (strip s))" and "\<not> is_space (last (strip s))"
proof -
  let ?u = "dropWhile is_space s"
  let ?v = "dropWhile is_space (rev ?u)"
  have s: "strip s = rev ?v" by (simp add: strip_def)
  with assms have v: "?v \<noteq> []" by simp
  have u: "?u \<noteq> []"
  proof
    assume "?u = []"
    then have "?v = dropWhile is_space (rev [])" by (simp only:)
    with v show False by simp
  qed
  from v have "\<not> is_space (hd ?v)" by (rule hd_dropWhile)
  with v s show "\<not> is_space (last (strip s))" by (simp add: last_rev)
  obtain ws where ws: "rev ?u = ws @ ?v"
    by (metis takeWhile_dropWhile_id)
  have "last (rev ?u) = last ?v"
    by (metis ws v last_appendR)
  with u have "last ?v = hd ?u" by (simp add: last_rev)
  moreover from u have "\<not> is_space (hd ?u)" by (rule hd_dropWhile)
  ultimately show "\<not> is_space (hd (strip s))" using v s by (simp add: hd_rev)
qed

lemma strip_strip: "strip (strip s) = strip s"
proof (cases "strip s = []")
  case True
  with strip_Nil show ?thesis by simp
next
  case False
  from strip_ends [OF False] False
  have "dropWhile is_space (strip s) = strip s"
    and "dropWhile is_space (rev (strip s)) = rev (strip s)"
    by (simp_all add: dropWhile_eq_self_iff hd_rev)
  then show ?thesis by (metis strip_def rev_rev_ident)
qed

lemma fragments_from_not_Nil: "fragments_from d cur s \<noteq> []"
  by (induction s arbitrary: cur) simp_all

lemma py_join_Cons: "fs \<noteq> [] \<Longrightarrow> py_join sep (f # fs) = f @ sep @ py_join sep fs"
  by (cases fs) simp_all

lemma py_join_fragments_from: "py_join [d] (fragments_from d cur s) = cur @ s"
  by (induction s arbitrary: cur) (simp_all add: py_join_Cons fragments_from_not_Nil)

lemma fragments_from_member:
  "f \<in> set (fragments_from d cur s) \<Longrightarrow> d \<in> set f \<Longrightarrow> d \<in> set cur"
proof (induction s arbitrary: cur)
  case Nil
  then show ?case by simp
next
  case (Cons c cs)
  show ?case
  proof (cases "c = d")
    case True
    with Cons.prems have "f = cur \<or> f \<in> set (fragments_from d [] cs)" by simp
    then show ?thesis
    proof
      assume "f = cur"
      with Cons.prems show ?thesis by simp
    next
      assume "f \<in> set (fragments_from d [] cs)"
      from Cons.IH [OF this Cons.prems(2)] show ?thesis by simp
    qed
  next
    case False
    with Cons.prems have "f \<in> set (fragments_from d (cur @ [c]) cs)" by simp
    from Cons.IH [OF this Cons.prems(2)] False show ?thesis by auto
  qed
qed

lemma fragments_from_free:
  "d \<notin> set cur \<Longrightarrow> d \<notin> set (concat (fragments_from d cur s))"
  using fragments_from_member [of _ d cur s] by auto

lemma fragments_from_append:
  "d \<notin> set f \<Longrightarrow> fragments_from d cur (f @ rest) = fragments_from d (cur @ f) rest"
  by (induction f arbitrary: cur) auto

lemma fragments_from_join:
  "\<forall>f \<in> set (f0 # fs). d \<notin> set f \<Longrightarrow>
   fragments_from d cur (py_join [d] (f0 # fs)) = (cur @ f0) # fs"
proof (induction fs arbitrary: cur f0)
  case Nil
  then show ?case using fragments_from_append [of d f0 cur "[]"] by simp
next
  case (Cons g gs)
  then have "fragments_from d [] (py_join [d] (g # gs)) = g # gs" by simp
  with Cons.prems show ?case
    using fragments_from_append [of d f0 cur "d # py_join [d] (g # gs)"] by simp
qed

lemma py_split_on_join:
  "fs \<noteq> [] \<Longrightarrow> \<forall>f \<in> set fs. d \<notin> set f \<Longrightarrow> py_split_on d (py_join [d] fs) = fs"
proof (cases fs)
  case Nil
  assume "fs \<noteq> []"
  with Nil show ?thesis by simp
next
  case (Cons f0 rest)
  assume "\<forall>f \<in> set fs. d \<notin> set f"
  with Cons have "fragments_from d [] (py_join [d] (f0 # rest)) = ([] @ f0) # rest"
    by (intro fragments_from_join) simp
  with Cons show ?thesis by (simp add: py_split_on_def)
qed

section \<open>The query parser\<close>

subsection \<open>The end of the options\<close>

text \<open>
  When the loop stands on the last slash, the slice \<open>text[current_pos:next_space]\<close> begins
  with that slash, and \<open>strip\<close> keeps it. So the test \<open>not last_part.startswith("/")\<close>
  fails whenever a space follows, and the branch that would take the space as the end is
  never taken: the end is right after the last slash, or the end of the text when no
  space follows.
\<close>

lemma options_end_at_last_slash:
  assumes "pos < length t" and "t ! pos = CHR ''/''"
    and "py_find t CHR ''/'' (pos + 1) = None"
  shows "options_end t e pos =
     (case py_find t CHR '' '' pos of None \<Rightarrow> length t | Some next_space \<Rightarrow> pos + 1)"
proof (cases "py_find t CHR '' '' pos")
  case None
  with assms show ?thesis by (simp add: options_end.simps)
next
  case (Some next_space)
  from py_find_at [OF Some] assms(2) have "pos < next_space" "next_space < length t"
    by (auto simp: le_less)
  then have "slice t pos next_space = CHR ''/'' # drop (Suc pos) (take next_space t)"
    using assms(2) by (simp add: slice_def Cons_nth_drop_Suc [symmetric])
  moreover have "\<not> is_space CHR ''/''" by (simp add: is_space_def whitespace_def)
  ultimately obtain ys where "strip (slice t pos next_space) = CHR ''/'' # ys"
    using strip_Cons by metis
  with Some assms show ?thesis by (simp add: options_end.simps startswith_def)
qed

text \<open>
  Claim C1. For \<open>Agilent 8116A /160/EEC/PLK/UK6 has to be delivered soon\<close> the claim
  expects brand \<open>Agilent\<close>, model \<open>8116A\<close> and the options \<open>/160/EEC/PLK/UK6\<close>. The
  code returns that brand and that model, and the free text stays out of the options,
  but the options end right after the last slash: \<open>UK6\<close> is lost. The comments of the
  loop ("there's a word after the last /, include it") say what was meant.
\<close>

theorem parse_query_delivered_soon_drops_last_option:
  "parse_query ''Agilent 8116A /160/EEC/PLK/UK6 has to be delivered soon'' =
     \<lparr>brand = ''Agilent'', model = ''8116A'', raw_options = ''/160/EEC/PLK/''\<rparr>"
  by code_simp

text \<open>
  Claim C2. The claim describes the scan: at the last slash, when a space follows and the
  text between the slash and the space is a non-empty token, the end is at the space. In
  \<open>HP 33120A /001 now\<close> the last slash is at index 10 and the next space at index 14, with
  the token \<open>001\<close> between them; the code puts the end at 11, right after the slash, and
  the options are the slash alone. (Lemma \<open>options_end_at_last_slash\<close> shows that this
  happens for every text.)
\<close>

theorem options_end_excludes_trailing_token:
  "py_find ''HP 33120A /001 now'' CHR ''/'' 0 = Some 10
   \<and> py_find ''HP 33120A /001 now'' CHR '' '' 10 = Some 14
   \<and> options_end ''HP 33120A /001 now'' 10 10 = 11
   \<and> raw_options (parse_query ''HP 33120A /001 now'') = ''/''"
  by code_simp

text \<open>
  Claim C3, as stated, fails: for
  \<open>Agilent 8116A with options like 160/EEC/PLK/UK6 please deliver quickly\<close> the options
  are not \<open>160/EEC/PLK/UK6\<close>.
\<close>

theorem options_like_raw_options_not_from_160:
  "raw_options (parse_query
      ''Agilent 8116A with options like 160/EEC/PLK/UK6 please deliver quickly'')
   \<noteq> ''160/EEC/PLK/UK6''"
  by code_simp

text \<open>
  Claim C3, amended. For that input the brand is \<open>Agilent\<close>, the model is \<open>8116A\<close>, and
  the options begin at the first slash, with \<open>/EEC/PLK/\<close>: the token \<open>160\<close> before the
  first slash is not part of them (\<open>parse_query\<close> does not combine the options with the
  last word before the slash).
\<close>

theorem parse_query_options_like:
  "brand (parse_query
      ''Agilent 8116A with options like 160/EEC/PLK/UK6 please deliver quickly'') = ''Agilent''
   \<and> model (parse_query
      ''Agilent 8116A with options like 160/EEC/PLK/UK6 please deliver quickly'') = ''8116A''
   \<and> startswith (raw_options (parse_query
      ''Agilent 8116A with options like 160/EEC/PLK/UK6 please deliver quickly'')) ''/EEC/PLK/''
   \<and> last_word_before_slash (py_split ''Agilent 8116A with options like 160'') = ''160''"
  by code_simp

subsection \<open>Connecting words\<close>

lemma first_word_filter: "Q [] \<Longrightarrow> Q (first_word (filter Q ws))"
proof (cases "filter Q ws")
  case Nil
  assume "Q []"
  with Nil show ?thesis by (simp add: first_word_def)
next
  case (Cons w rest)
  then have "w \<in> set (filter Q ws)" by simp
  then have "Q w" by simp
  with Cons show ?thesis by (simp add: first_word_def)
qed

lemma second_word_filter: "Q [] \<Longrightarrow> Q (second_word (filter Q ws))"
proof (cases "filter Q ws")
  case Nil
  assume "Q []"
  with Nil show ?thesis by (simp add: second_word_def)
next
  case outer: (Cons a rest)
  assume q: "Q []"
  show ?thesis
  proof (cases rest)
    case Nil
    with outer q show ?thesis by (simp add: second_word_def)
  next
    case (Cons w rest')
    with outer have "w \<in> set (filter Q ws)" by simp
    then have "Q w" by simp
    with Cons outer show ?thesis by (simp add: second_word_def)
  qed
qed

lemma connecting_words_same: "connecting_words_slash = connecting_words_no_slash"
  by (simp add: connecting_words_slash_def connecting_words_no_slash_def)

lemma empty_not_connecting: "lower [] \<notin> set connecting_words_no_slash"
  by (simp add: lower_def connecting_words_no_slash_def)

text \<open>
  Claim C4, as stated, fails: \<open>the\<close>, \<open>please\<close> and \<open>find\<close> are in the claim's set of
  stop words, and \<open>parse_query\<close> selects them as brand and model, without a slash and
  with one.
\<close>

theorem parse_query_selects_the_please_find:
  "brand (parse_query ''the Agilent 8116A'') = ''the''
   \<and> brand (parse_query ''please find Agilent 8116A /160'') = ''please''
   \<and> model (parse_query ''please find Agilent 8116A /160'') = ''find''"
  by code_simp

text \<open>
  Claim C4, amended. For every input, the brand and the model that \<open>parse_query\<close> returns
  are never a word whose lower-case form is one of the nine connecting words \<open>with\<close>,
  \<open>options\<close>, \<open>option\<close>, \<open>like\<close>, \<open>such\<close>, \<open>as\<close>, \<open>enter\<close>, \<open>a\<close>, \<open>query\<close>, on the
  path without a slash and on the path with one; the two paths filter against lists
  with the same content.
\<close>

theorem parse_query_skips_connecting_words:
  "lower (brand (parse_query t)) \<notin> set connecting_words_no_slash
   \<and> lower (model (parse_query t)) \<notin> set connecting_words_no_slash
   \<and> connecting_words_slash = connecting_words_no_slash
   \<and> set connecting_words_no_slash =
       {''with'', ''options'', ''option'', ''like'', ''such'', ''as'', ''enter'', ''a'',
        ''query''}"
proof -
  let ?Q = "\<lambda>w. lower w \<notin> set connecting_words_no_slash"
  have b: "?Q (first_word (filter ?Q ws))" for ws
    using first_word_filter [of ?Q ws] empty_not_connecting by simp
  have m: "?Q (second_word (filter ?Q ws))" for ws
    using second_word_filter [of ?Q ws] empty_not_connecting by simp
  have 1: "?Q (brand (parse_query t))"
    using b by (simp add: parse_query_def Let_def connecting_words_same split: option.split)
  have 2: "?Q (model (parse_query t))"
    using m by (simp add: parse_query_def Let_def connecting_words_same split: option.split)
  have 3: "set connecting_words_no_slash =
       {''with'', ''options'', ''option'', ''like'', ''such'', ''as'', ''enter'', ''a'',
        ''query''}"
    by (simp add: connecting_words_no_slash_def insert_commute)
  from 1 2 3 connecting_words_same show ?thesis by simp
qed

section \<open>The option splitter\<close>

lemma collect_options_eq:
  "collect_options acc xs = acc @ filter (\<lambda>f. f \<noteq> []) (map strip xs)"
  by (induction xs arbitrary: acc) (simp_all add: Let_def)

lemma split_options_deterministic_Some:
  "split_options_deterministic (Some x) =
     filter (\<lambda>f. f \<noteq> []) (map strip (py_split_on CHR ''/'' x))"
  by (simp add: split_options_deterministic_def collect_options_eq py_split_on_def strip_Nil)

text \<open>
  Claim C5. For every string \<open>x\<close>, \<open>split_options_deterministic\<close> returns the fragments
  of \<open>x\<close> between slashes, from left to right, each stripped, without those that are
  empty after stripping, and nothing else is removed or reordered. The fragments are the
  slash-free pieces of \<open>x\<close>: joined by slashes they give \<open>x\<close> back. The result has no
  empty string, and the empty string and \<open>None\<close> give the empty list. The function has
  a value on every input.
\<close>

theorem split_options_deterministic_fragments:
  "split_options_deterministic (Some x) =
     filter (\<lambda>f. f \<noteq> []) (map strip (py_split_on CHR ''/'' x))
   \<and> py_join ''/'' (py_split_on CHR ''/'' x) = x
   \<and> CHR ''/'' \<notin> set (concat (py_split_on CHR ''/'' x))
   \<and> [] \<notin> set (split_options_deterministic (Some x))
   \<and> split_options_deterministic (Some []) = []
   \<and> split_options_deterministic None = []"
proof -
  have 1: "py_join ''/'' (py_split_on CHR ''/'' x) = x"
    using py_join_fragments_from [of "CHR ''/''" "[]" x] by (simp add: py_split_on_def)
  have 2: "CHR ''/'' \<notin> set (concat (py_split_on CHR ''/'' x))"
    using fragments_from_free [of "CHR ''/''" "[]" x] by (simp add: py_split_on_def)
  have 3: "[] \<notin> set (split_options_deterministic (Some x))"
    by (simp add: split_options_deterministic_Some)
  have 4: "split_options_deterministic (Some []) = []"
    and 5: "split_options_deterministic None = []"
    by (simp_all add: split_options_deterministic_def)
  from split_options_deterministic_Some 1 2 3 4 5 show ?thesis by simp
qed

lemma split_join:
  assumes "\<forall>f \<in> set fs. CHR ''/'' \<notin> set f \<and> f \<noteq> [] \<and> strip f = f"
  shows "split_options_deterministic (Some (py_join ''/'' fs)) = fs"
proof (cases "fs = []")
  case True
  then show ?thesis by (simp add: split_options_deterministic_def)
next
  case False
  with assms have "py_split_on CHR ''/'' (py_join ''/'' fs) = fs"
    using py_split_on_join [where fs = fs and d = "CHR ''/''"] by simp
  moreover have "filter (\<lambda>f. f \<noteq> []) (map strip fs) = fs"
    using assms by (induction fs) simp_all
  ultimately show ?thesis by (simp add: split_options_deterministic_Some)
qed

section \<open>Normalisation\<close>

subsection \<open>The options passed on by \<open>main\<close>\<close>

lemma filter_filter_strip:
  "filter (\<lambda>opt. R opt \<and> length opt > 0)
     (map strip (filter (\<lambda>opt. strip opt \<noteq> []) xs))
   = filter R (filter (\<lambda>f. f \<noteq> []) (map strip xs))"
  by (induction xs) auto

lemma split_filter_raw_options:
  "split_options_deterministic (Some (filter_raw_options b m opts)) =
     filter (\<lambda>opt. lower opt \<notin> set [lower b, lower m])
       (filter (\<lambda>f. f \<noteq> []) (map strip (py_split_on CHR ''/'' opts)))"
proof (cases "opts = []")
  case True
  then show ?thesis
    by (simp add: filter_raw_options_def split_options_deterministic_def py_split_on_def
        strip_Nil)
next
  case False
  let ?fs = "filter (\<lambda>opt. lower opt \<notin> set [lower b, lower m] \<and> length opt > 0)
       (map strip (filter (\<lambda>opt. strip opt \<noteq> []) (py_split_on CHR ''/'' opts)))"
  have free: "CHR ''/'' \<notin> set g" if "g \<in> set (py_split_on CHR ''/'' opts)" for g
    using that fragments_from_free [of "CHR ''/''" "[]" opts] by (auto simp: py_split_on_def)
  have "\<forall>f \<in> set ?fs. CHR ''/'' \<notin> set f \<and> f \<noteq> [] \<and> strip f = f"
    using free set_strip by (auto simp: strip_strip)
  then have "split_options_deterministic (Some (py_join ''/'' ?fs)) = ?fs"
    by (rule split_join)
  moreover have "?fs = filter (\<lambda>opt. lower opt \<notin> set [lower b, lower m])
       (filter (\<lambda>f. f \<noteq> []) (map strip (py_split_on CHR ''/'' opts)))"
    by (rule filter_filter_strip)
  ultimately show ?thesis using False by (simp add: filter_raw_options_def Let_def)
qed

subsection \<open>Brand and model of the result\<close>

lemma set_normalized_field_Inr:
  assumes "set_normalized_field p k v = Inr p'"
  shows "\<exists>kvs nk. p = JObj kvs \<and> map_of kvs ''normalized'' = Some (JObj nk)
           \<and> p' = JObj (AList.update ''normalized'' (JObj (AList.update k (JStr v) nk)) kvs)"
proof (cases p)
  case (JObj kvs)
  show ?thesis
  proof (cases "map_of kvs ''normalized''")
    case None
    with JObj assms show ?thesis by (simp add: set_normalized_field_def)
  next
    case (Some n)
    with JObj assms show ?thesis
      by (cases n) (auto simp: set_normalized_field_def)
  qed
qed (use assms in \<open>simp_all add: set_normalized_field_def\<close>)

lemma normalized_field_set:
  assumes "set_normalized_field p k v = Inr p'"
  shows "normalized_field p' k' = (if k' = k then Some (JStr v) else normalized_field p k')"
proof -
  from set_normalized_field_Inr [OF assms] obtain kvs nk where
    "p = JObj kvs" "map_of kvs ''normalized'' = Some (JObj nk)"
    "p' = JObj (AList.update ''normalized'' (JObj (AList.update k (JStr v) nk)) kvs)"
    by blast
  then show ?thesis
    by (simp add: normalized_field_def update_conv' split: option.split)
qed

lemma normalized_field_record:
  "normalized_field (normalized_record b m opts) ''brand'' = Some (JStr b)"
  "normalized_field (normalized_record b m opts) ''model'' = Some (JStr m)"
  by (simp_all add: normalized_field_def normalized_record_def)

lemma set_normalized_field_record:
  "set_normalized_field (normalized_record b m opts) ''brand'' b = Inr (normalized_record b m opts)"
  "set_normalized_field (normalized_record b m opts) ''model'' m = Inr (normalized_record b m opts)"
  by (simp_all add: set_normalized_field_def normalized_record_def)

text \<open>
  Claim C6. Whatever the client is (none, one whose call raises, one that answers with
  any content), whatever \<open>json.loads\<close> makes of the content, and whatever the options
  are, the record that the normalisation block leaves in \<open>payload\<close> has
  \<open>normalized.brand\<close> equal to the brand hint and \<open>normalized.model\<close> equal to the model
  hint.
\<close>

theorem normalize_brand_model:
  "normalized_field (main_normalize loads client b m opts) ''brand'' = Some (JStr b)
   \<and> normalized_field (main_normalize loads client b m opts) ''model'' = Some (JStr m)"
  by (auto simp: main_normalize_def Let_def normalized_field_record normalized_field_set
      split: sum.split option.split)

subsection \<open>A call that fails\<close>

text \<open>
  Claim C7, as stated, fails: when the call of the collaborator raises, the record does
  not hold the option splitter's result on the local raw options. For brand \<open>Agilent\<close>,
  model \<open>E4980A\<close> and options \<open>001/710/710\<close> the splitter gives three options, the
  record none.
\<close>

theorem failed_call_record_not_split:
  "main_normalize (\<lambda>s. None) (Some (\<lambda>t. CallRaises)) ''Agilent'' ''E4980A'' ''001/710/710''
   \<noteq> normalized_record ''Agilent'' ''E4980A''
        (split_options_deterministic
           (Some (filter_raw_options ''Agilent'' ''E4980A'' ''001/710/710'')))"
  by code_simp

text \<open>
  Claim C7, amended. When the call of the collaborator raises, the \<open>except\<close> branch
  gives the caller a normal record, with brand and model from the hints, an empty list
  of options and empty results; no exception leaves the block.
\<close>

theorem normalize_when_call_raises:
  "c (llm_input b m (filter_raw_options b m opts)) = CallRaises \<Longrightarrow>
   main_normalize loads (Some c) b m opts = normalized_record b m []"
  by (simp add: main_normalize_def normalize_options_via_llm_def)

text \<open>
  Claim C7, amended, at a client whose every call raises: the hypothesis holds there.
\<close>

theorem normalize_when_call_raises_witness:
  "(\<lambda>t. CallRaises)
     (llm_input ''Agilent'' ''E4980A''
        (filter_raw_options ''Agilent'' ''E4980A'' ''001/710/710'')) = CallRaises
   \<and> main_normalize (\<lambda>s. None) (Some (\<lambda>t. CallRaises)) ''Agilent'' ''E4980A'' ''001/710/710''
       = normalized_record ''Agilent'' ''E4980A'' []"
  using normalize_when_call_raises
    [of "\<lambda>t. CallRaises" "''Agilent''" "''E4980A''" "''001/710/710''" "\<lambda>s. None"]
  by simp

subsection \<open>Replies that are not the expected object\<close>

lemma normalize_options_via_llm_invalid_json:
  assumes "client t = Content c" and "loads (content_or_empty_object c) = None"
  shows "normalize_options_via_llm loads client t = Inr (normalized_record [] [] [])"
  using assms by (simp add: normalize_options_via_llm_def)

lemma normalize_options_via_llm_object_without_key:
  assumes "client t = Content c" and "loads (content_or_empty_object c) = Some (JObj kvs)"
    and "''normalized'' \<notin> set (map fst kvs)"
  shows "normalize_options_via_llm loads client t = Inr (normalized_record [] [] [])"
  using assms by (simp add: normalize_options_via_llm_def)

lemma normalize_options_via_llm_object_with_key:
  assumes "client t = Content c" and "loads (content_or_empty_object c) = Some (JObj kvs)"
    and "''normalized'' \<in> set (map fst kvs)"
  shows "normalize_options_via_llm loads client t = Inr (JObj kvs)"
  using assms by (simp add: normalize_options_via_llm_def)

text \<open>
  Claim C8. A reply that is not valid JSON gives the fallback record, and so does a JSON
  object without the key \<open>normalized\<close> (the two lemmas above). But the test
  \<open>"normalized" not in data\<close> is also made on a reply that is no object: the JSON array
  \<open>["normalized"]\<close> is valid JSON without any key, the test finds the element, and the
  function returns the array itself instead of the fallback record.
\<close>

theorem normalize_options_via_llm_returns_array:
  \<open>normalize_options_via_llm
     (\<lambda>s. if s = ''["normalized"]'' then Some (JArr [JStr ''normalized'']) else None)
     (\<lambda>t. Content (Some ''["normalized"]'')) ''Agilent E4980A 001/710''
   = Inr (JArr [JStr ''normalized''])
   \<and> JArr [JStr ''normalized''] \<noteq> normalized_record [] [] []\<close>
  by code_simp

subsection \<open>Without a client\<close>

text \<open>
  Claim C9, as stated, fails: the raw options are not what the query parser finds in the
  combined text. For brand \<open>Agilent\<close>, model \<open>16555D\<close> and options
  \<open>W Cables/Terms\<close> (a line of the built-in data) the record has the options
  \<open>W Cables\<close> and \<open>Terms\<close>; the parser, run on \<open>Agilent 16555D W Cables/Terms\<close>, finds
  the raw options \<open>/Terms\<close>, which split into \<open>Terms\<close> alone.
\<close>

theorem no_client_options_not_from_parse_query:
  "main_normalize (\<lambda>s. None) None ''Agilent'' ''16555D'' ''W Cables/Terms''
     = normalized_record ''Agilent'' ''16555D'' [''W Cables'', ''Terms'']
   \<and> split_options_deterministic
        (Some (raw_options (parse_query ''Agilent 16555D W Cables/Terms''))) = [''Terms'']"
  by code_simp

text \<open>
  Claim C9, amended. Without a client the record is brand hint, model hint, the option
  splitter's result on the raw options, and empty results, where the raw options come
  from the options text alone, without the query parser: its fragments between slashes,
  stripped, without the empty ones and without those whose lower-case form is that of
  the brand or model hint, joined by slashes. The options of the record are exactly
  these fragments, in order.
\<close>

theorem normalize_without_client:
  "main_normalize loads None b m opts =
     normalized_record b m (split_options_deterministic (Some (filter_raw_options b m opts)))
   \<and> split_options_deterministic (Some (filter_raw_options b m opts)) =
     filter (\<lambda>opt. lower opt \<notin> set [lower b, lower m])
       (filter (\<lambda>f. f \<noteq> []) (map strip (py_split_on CHR ''/'' opts)))"
proof -
  have "main_normalize loads None b m opts =
     normalized_record b m (split_options_deterministic (Some (filter_raw_options b m opts)))"
    by (simp add: main_normalize_def Let_def set_normalized_field_record)
  with split_filter_raw_options [of b m opts] show ?thesis by simp
qed

subsection \<open>The shape of an accepted reply\<close>

text \<open>
  Claim C10. \<open>normalize_options_via_llm\<close> defines a schema for the reply and never uses
  it: a reply with the key \<open>normalized\<close> is returned as it is (lemma
  \<open>normalize_options_via_llm_object_with_key\<close>). For the reply \<open>{"normalized": {}}\<close>
  the returned value has no brand, no model, no options and no results, so it does not
  have the shape of the schema; and after \<open>main\<close> has set brand and model, the record
  still has no options and no results.
\<close>

theorem normalize_options_via_llm_unvalidated:
  \<open>normalize_options_via_llm
     (\<lambda>s. if s = ''{"normalized": {}}'' then Some (JObj [(''normalized'', JObj [])]) else None)
     (\<lambda>t. Content (Some ''{"normalized": {}}'')) ''Agilent E4980A 001/710''
   = Inr (JObj [(''normalized'', JObj [])])
   \<and> \<not> conforms_schema (JObj [(''normalized'', JObj [])])
   \<and> main_normalize
     (\<lambda>s. if s = ''{"normalized": {}}'' then Some (JObj [(''normalized'', JObj [])]) else None)
     (Some (\<lambda>t. Content (Some ''{"normalized": {}}''))) ''Agilent'' ''E4980A'' ''001/710''
   = JObj [(''normalized'', JObj [(''brand'', JStr ''Agilent''), (''model'', JStr ''E4980A'')])]\<close>
  by code_simp

end
